theory Spec2Isabelle
  imports Complex_Main
begin

section \<open>The event record of GHEP/GHepRecord.cxx\<close>

text \<open>
  The development embeds \<^verbatim>\<open>src/GHEP/GHepRecord.cxx\<close>: the STDHEP-like event record, a
  \<^verbatim>\<open>TClonesArray\<close> of particle entries whose mother and daughter links are positions
  in the same array, with the code that keeps every daughter list a contiguous range.

  Positions are C++ \<^verbatim>\<open>int\<close>s and are modelled as \<^typ>\<open>int\<close>: they are compared, and
  incremented or decremented by one, and for an array of fewer than \<open>2^30\<close> entries none
  of these operations leaves the 32-bit range. Stored positions may be negative
  (\<open>-1\<close> is "none"), so they are not naturals.
\<close>

subsection \<open>Particle entries\<close>

text \<open>
  Modelled from the spec: \<^verbatim>\<open>GHEP/GHepStatus.h\<close> is not among the sources. The record code
  names the status codes \<^verbatim>\<open>kIStInitialState\<close>, \<^verbatim>\<open>kIstNucleonTarget\<close> and
  \<^verbatim>\<open>kIStStableFinalState\<close>; the spec's role tag distinguishes in addition an
  intermediate/decayed role and generator-internal pseudo-roles.
\<close>

datatype GHepStatus_t =
    kIStInitialState
  | kIstNucleonTarget
  | kIStIntermediateState
  | kIStStableFinalState
  | kIStPseudoRole int

text \<open>
  A \<^verbatim>\<open>TLorentzVector\<close> holds four \<^verbatim>\<open>double\<close>s. The record code only stores and copies
  the two vectors of an entry, so the components are modelled as reals.
\<close>

type_synonym TLorentzVector = "real \<times> real \<times> real \<times> real"

text \<open>
  Modelled from the spec: \<^verbatim>\<open>GHEP/GHepParticle.h\<close> is not among the sources. An entry
  holds a type code, a role tag, the mother and daughter index fields, a 4-momentum and
  a 4-position. The fields are named after the accessors the record code calls
  (\<^verbatim>\<open>PdgCode()\<close>, \<^verbatim>\<open>Status()\<close>, \<^verbatim>\<open>FirstMother()\<close>, ...); a setter
  \<^verbatim>\<open>SetFirstMother(j)\<close> is the record update \<open>p\<lparr>FirstMother := j\<rparr>\<close>, and
  \<^verbatim>\<open>Copy\<close> and the copy constructor copy every field.
\<close>

record GHepParticle =
  PdgCode :: int
  Status :: GHepStatus_t
  FirstMother :: int
  LastMother :: int
  FirstDaughter :: int
  LastDaughter :: int
  P4 :: TLorentzVector
  V4 :: TLorentzVector

text \<open>
  Modelled from the spec: the derived predicate has-daughters of the missing
  \<^verbatim>\<open>GHepParticle\<close> class; a daughter range is \<open>(-1,-1)\<close> when there is none.
\<close>

definition HasDaughters :: "GHepParticle \<Rightarrow> bool" where
  "HasDaughters p = (FirstDaughter p \<noteq> -1)"

subsection \<open>Failures\<close>

text \<open>
  A failed \<^verbatim>\<open>assert\<close> aborts; a member call through a null pointer and a use of a
  deleted object are undefined behaviour. Each is a value of the model.
\<close>

datatype error = AssertFailed | NullDeref | DanglingPointer

subsection \<open>The particle array\<close>

text \<open>
  The \<^verbatim>\<open>TClonesArray\<close> base of the record is the list of its entries: entries are only
  ever constructed at slot \<^verbatim>\<open>GetEntries()\<close>, so the array has no empty slot and
  \<^verbatim>\<open>GetEntries()\<close> is its length. A \<^verbatim>\<open>GHepParticle *\<close> into the array is the
  position of the slot; the null pointer is \<open>None\<close>.
\<close>

definition GetEntries :: "GHepParticle list \<Rightarrow> int" where
  "GetEntries ps = int (length ps)"

text \<open>
  Modelled from the spec: \<^verbatim>\<open>TClonesArray::operator[]\<close> of ROOT is not among the
  sources. The spec's \<open>at(position)\<close> returns the entry or Missing, out-of-range access
  being not fatal; in a \<^verbatim>\<open>const\<close> member function \<^verbatim>\<open>(*this)[i]\<close> is that read.
\<close>

definition at_slot :: "GHepParticle list \<Rightarrow> int \<Rightarrow> GHepParticle option" where
  "at_slot ps i = (if 0 \<le> i \<and> i < int (length ps) then Some (ps ! nat i) else None)"

definition GetParticle :: "GHepParticle list \<Rightarrow> int \<Rightarrow> GHepParticle option" where
  "GetParticle ps position =
     (if position \<ge> 0 \<and> position < GetEntries ps
      then (case at_slot ps position of
              Some particle \<Rightarrow> Some particle
            | None \<Rightarrow> None)
      else None)"

text \<open>
  \<^verbatim>\<open>SwapParticles\<close>. Its two "tell their daughters" loops are
  \<^verbatim>\<open>for(k = first; k <= last; k++) GetParticle(k)->SetFirstMother(m)\<close>, here over the
  positions \<open>ks\<close>: \<^verbatim>\<open>GetParticle\<close> returns null for a position outside the array and
  the call through it is then a null dereference. The pointers \<^verbatim>\<open>pi\<close> and \<^verbatim>\<open>pj\<close>
  of the source are \<open>p_i\<close> and \<open>p_j\<close>, the entries at slots \<open>i\<close> and \<open>j\<close> after the
  contents were exchanged.
\<close>

fun tell_daughters :: "GHepParticle list \<Rightarrow> int list \<Rightarrow> int \<Rightarrow> error + GHepParticle list" where
  "tell_daughters ps [] m = Inr ps"
| "tell_daughters ps (k # ks) m =
     (case GetParticle ps k of
        None \<Rightarrow> Inl NullDeref
      | Some p \<Rightarrow> tell_daughters (ps[nat k := p\<lparr>FirstMother := m\<rparr>]) ks m)"

definition SwapParticles :: "GHepParticle list \<Rightarrow> int \<Rightarrow> int \<Rightarrow> error + GHepParticle list" where
  "SwapParticles ps i j =
     (let n = GetEntries ps in
      if \<not> (i \<ge> 0 \<and> j \<ge> 0 \<and> i < n \<and> j < n) then Inl AssertFailed
      else if i = j then Inr ps
      else
        let tmp = ps ! nat i;
            ps1 = ps[nat i := ps ! nat j];
            ps2 = ps1[nat j := tmp];
            p_i = ps2 ! nat i
        in case (if HasDaughters p_i
                 then tell_daughters ps2 [FirstDaughter p_i .. LastDaughter p_i] j
                 else Inr ps2) of
             Inl e \<Rightarrow> Inl e
           | Inr ps3 \<Rightarrow>
               let p_j = ps3 ! nat j
               in if HasDaughters p_j
                  then tell_daughters ps3 [FirstDaughter p_j .. LastDaughter p_j] i
                  else Inr ps3)"

text \<open>
  \<^verbatim>\<open>HasCompactDaughterList\<close>: the iterator walk that pushes the positions of the
  daughters of \<open>pos\<close>, then the walk over the sorted vector.
\<close>

fun collect_daughters :: "GHepParticle list \<Rightarrow> int \<Rightarrow> int \<Rightarrow> int list \<Rightarrow> int list" where
  "collect_daughters [] pos i daughters = daughters"
| "collect_daughters (p # rest) pos i daughters =
     collect_daughters rest pos (i + 1)
       (if FirstMother p = pos then daughters @ [i] else daughters)"

fun check_consecutive :: "int \<Rightarrow> int list \<Rightarrow> bool \<Rightarrow> bool" where
  "check_consecutive prv [] is_compact = is_compact"
| "check_consecutive prv (cur # rest) is_compact =
     check_consecutive cur rest (is_compact \<and> \<bar>prv - cur\<bar> \<le> 1)"

definition HasCompactDaughterList :: "GHepParticle list \<Rightarrow> int \<Rightarrow> bool" where
  "HasCompactDaughterList ps pos =
     (let daughters = collect_daughters ps pos 0 []
      in if length daughters > 1
         then (case sort daughters of
                 [] \<Rightarrow> True
               | prv # rest \<Rightarrow> check_consecutive prv (prv # rest) True)
         else True)"

fun FirstNonInitStateEntry_from :: "GHepParticle list \<Rightarrow> int \<Rightarrow> int" where
  "FirstNonInitStateEntry_from [] pos = pos"
| "FirstNonInitStateEntry_from (p # rest) pos =
     (if Status p \<noteq> kIStInitialState \<and> Status p \<noteq> kIstNucleonTarget then pos
      else FirstNonInitStateEntry_from rest (pos + 1))"

definition FirstNonInitStateEntry :: "GHepParticle list \<Rightarrow> int" where
  "FirstNonInitStateEntry ps = FirstNonInitStateEntry_from ps 0"

text \<open>
  \<^verbatim>\<open>FinalizeDaughterLists\<close>: the inner walk computes \<^verbatim>\<open>dau1\<close> and \<^verbatim>\<open>dau2\<close> for the
  mother at \<open>i1\<close>; the outer walk stores them in the entry at \<open>i1\<close>.
\<close>

fun scan_daughters :: "GHepParticle list \<Rightarrow> int \<Rightarrow> int \<Rightarrow> int \<times> int \<Rightarrow> int \<times> int" where
  "scan_daughters [] i1 i2 (dau1, dau2) = (dau1, dau2)"
| "scan_daughters (p2 # rest) i1 i2 (dau1, dau2) =
     scan_daughters rest i1 (i2 + 1)
       (if FirstMother p2 = i1
        then ((if dau1 < 0 then i2 else min dau1 i2), (if dau2 < 0 then i2 else max dau2 i2))
        else (dau1, dau2))"

fun finalize_from :: "nat list \<Rightarrow> GHepParticle list \<Rightarrow> GHepParticle list" where
  "finalize_from [] ps = ps"
| "finalize_from (i1 # rest) ps =
     (case scan_daughters ps (int i1) 0 (-1, -1) of
        (dau1, dau2) \<Rightarrow>
          finalize_from rest (ps[i1 := (ps ! i1)\<lparr>FirstDaughter := dau1, LastDaughter := dau2\<rparr>]))"

definition FinalizeDaughterLists :: "GHepParticle list \<Rightarrow> GHepParticle list" where
  "FinalizeDaughterLists ps = finalize_from [0 ..< length ps] ps"

text \<open>
  \<^verbatim>\<open>CompactifyDaughterLists\<close>. The inner \<^verbatim>\<open>for(; k<n; k++)\<close> is
  \<open>compactify_scan\<close>, over the positions \<open>ks\<close> with the state \<open>(ps, start, ndau)\<close>;
  the body of the outer loop is \<open>compactify_entry\<close>, for one position \<open>i\<close> with the
  state \<open>(ps, start)\<close>; the outer loop is \<open>compactify_pass\<close>, and \<open>compactify_phase1\<close>
  is the function up to its call of \<^verbatim>\<open>FinalizeDaughterLists\<close>.
\<close>

fun compactify_scan ::
  "int \<Rightarrow> int list \<Rightarrow> GHepParticle list \<times> int \<times> int \<Rightarrow> error + (GHepParticle list \<times> int \<times> int)" where
  "compactify_scan i [] (ps, start, ndau) = Inr (ps, start, ndau)"
| "compactify_scan i (k # ks) (ps, start, ndau) =
     (case GetParticle ps k of
        None \<Rightarrow> Inl NullDeref
      | Some p \<Rightarrow>
          if FirstMother p = i
          then (case SwapParticles ps start k of
                  Inl e \<Rightarrow> Inl e
                | Inr ps' \<Rightarrow> compactify_scan i ks (ps', start + 1, ndau + 1))
          else compactify_scan i ks (ps, start, ndau))"

definition compactify_entry ::
  "int \<Rightarrow> int \<Rightarrow> GHepParticle list \<times> int \<Rightarrow> error + (GHepParticle list \<times> int)" where
  "compactify_entry n i s =
     (case s of (ps, start) \<Rightarrow>
        if HasCompactDaughterList ps i then Inr (ps, start)
        else
          let dau1 = start
          in case compactify_scan i [start + 1 .. n - 1] (ps, start, 0) of
               Inl e \<Rightarrow> Inl e
             | Inr (ps', start', ndau) \<Rightarrow>
                 (case GetParticle ps' i of
                    None \<Rightarrow> Inl NullDeref
                  | Some p \<Rightarrow>
                      if ndau > 0
                      then Inr (ps'[nat i := p\<lparr>FirstDaughter := dau1, LastDaughter := dau1 + ndau\<rparr>], start')
                      else Inr (ps'[nat i := p\<lparr>FirstDaughter := -1, LastDaughter := -1\<rparr>], start')))"

fun compactify_pass ::
  "int \<Rightarrow> int list \<Rightarrow> GHepParticle list \<times> int \<Rightarrow> error + (GHepParticle list \<times> int)" where
  "compactify_pass n [] s = Inr s"
| "compactify_pass n (i # rest) s =
     (case compactify_entry n i s of
        Inl e \<Rightarrow> Inl e
      | Inr s' \<Rightarrow> compactify_pass n rest s')"

definition compactify_phase1 :: "GHepParticle list \<Rightarrow> error + (GHepParticle list \<times> int)" where
  "compactify_phase1 ps =
     (let n = GetEntries ps; start = FirstNonInitStateEntry ps
      in compactify_pass n [0 .. n - 1] (ps, start))"

definition CompactifyDaughterLists :: "GHepParticle list \<Rightarrow> error + GHepParticle list" where
  "CompactifyDaughterLists ps =
     (case compactify_phase1 ps of
        Inl e \<Rightarrow> Inl e
      | Inr (ps', start) \<Rightarrow> Inr (FinalizeDaughterLists ps'))"

text \<open>
  \<^verbatim>\<open>UpdateDaughterLists\<close>. The result names the \<^verbatim>\<open>return\<close> that was taken (each
  writes a log line of its own), so that a run of the compactifier is observable.
\<close>

datatype update_path =
    NoMother
  | MotherNotFound
  | ListWasEmpty
  | ExtendedBefore
  | ExtendedAfter
  | RanCompactifier

definition UpdateDaughterLists :: "GHepParticle list \<Rightarrow> error + (update_path \<times> GHepParticle list)" where
  "UpdateDaughterLists ps =
     (let pos = GetEntries ps - 1 in
      case GetParticle ps pos of
        None \<Rightarrow> Inl AssertFailed
      | Some p \<Rightarrow>
          let mom_pos = FirstMother p in
          if mom_pos = -1 then Inr (NoMother, ps)
          else
            (case GetParticle ps mom_pos of
               None \<Rightarrow> Inr (MotherNotFound, ps)
             | Some mom \<Rightarrow>
                 let dau1 = FirstDaughter mom; dau2 = LastDaughter mom in
                 if dau1 = -1
                 then Inr (ListWasEmpty,
                           ps[nat mom_pos := mom\<lparr>FirstDaughter := pos, LastDaughter := pos\<rparr>])
                 else if pos = dau1 - 1
                 then Inr (ExtendedBefore, ps[nat mom_pos := mom\<lparr>FirstDaughter := pos\<rparr>])
                 else if pos = dau2 + 1
                 then Inr (ExtendedAfter, ps[nat mom_pos := mom\<lparr>LastDaughter := pos\<rparr>])
                 else (case CompactifyDaughterLists ps of
                         Inl e \<Rightarrow> Inl e
                       | Inr ps' \<Rightarrow> Inr (RanCompactifier, ps'))))"

text \<open>
  \<^verbatim>\<open>AddParticle\<close> (its three overloads construct the entry at slot
  \<^verbatim>\<open>GetEntries()\<close> and call \<^verbatim>\<open>UpdateDaughterLists\<close>).
\<close>

definition AddParticle :: "GHepParticle list \<Rightarrow> GHepParticle \<Rightarrow> error + (update_path \<times> GHepParticle list)" where
  "AddParticle ps p = UpdateDaughterLists (ps @ [p])"

text \<open>
  A caller's sequence of \<^verbatim>\<open>AddParticle\<close> calls, with the path each call took.
\<close>

fun AddParticles ::
  "GHepParticle list \<Rightarrow> GHepParticle list \<Rightarrow> error + (update_path list \<times> GHepParticle list)" where
  "AddParticles ps [] = Inr ([], ps)"
| "AddParticles ps (p # rest) =
     (case AddParticle ps p of
        Inl e \<Rightarrow> Inl e
      | Inr (path, ps') \<Rightarrow>
          (case AddParticles ps' rest of
             Inl e \<Rightarrow> Inl e
           | Inr (paths, ps'') \<Rightarrow> Inr (path # paths, ps'')))"

text \<open>
  The constructor \<^verbatim>\<open>GHepParticle(pdg, status, mom1, mom2, dau1, dau2, p, v)\<close> that the
  second \<^verbatim>\<open>AddParticle\<close> overload calls.
\<close>

definition new_GHepParticle ::
  "int \<Rightarrow> GHepStatus_t \<Rightarrow> int \<Rightarrow> int \<Rightarrow> int \<Rightarrow> int \<Rightarrow> TLorentzVector \<Rightarrow> TLorentzVector
     \<Rightarrow> GHepParticle" where
  "new_GHepParticle pdg status mom1 mom2 dau1 dau2 p v =
     \<lparr>PdgCode = pdg, Status = status, FirstMother = mom1, LastMother = mom2,
      FirstDaughter = dau1, LastDaughter = dau2, P4 = p, V4 = v\<rparr>"

subsection \<open>Lookups\<close>

text \<open>
  \<^verbatim>\<open>FindParticle\<close> and the two \<^verbatim>\<open>ParticlePosition\<close> overloads: the loop
  \<^verbatim>\<open>for(int i = start; i < GetEntries(); i++)\<close> over the positions \<open>is\<close>. The entry
  pointer \<^verbatim>\<open>p\<close> is used without a null check. The lookups are \<^verbatim>\<open>const\<close> member
  functions: they return a result and leave the record as it is.
\<close>

fun FindParticle_loop ::
  "GHepParticle list \<Rightarrow> int \<Rightarrow> GHepStatus_t \<Rightarrow> int list \<Rightarrow> error + GHepParticle option" where
  "FindParticle_loop ps pdg status [] = Inr None"
| "FindParticle_loop ps pdg status (i # rest) =
     (case at_slot ps i of
        None \<Rightarrow> Inl NullDeref
      | Some p \<Rightarrow>
          if Status p = status \<and> PdgCode p = pdg then Inr (Some p)
          else FindParticle_loop ps pdg status rest)"

definition FindParticle ::
  "GHepParticle list \<Rightarrow> int \<Rightarrow> GHepStatus_t \<Rightarrow> int \<Rightarrow> error + GHepParticle option" where
  "FindParticle ps pdg status start =
     FindParticle_loop ps pdg status [start .. GetEntries ps - 1]"

fun ParticlePosition_loop ::
  "GHepParticle list \<Rightarrow> int \<Rightarrow> GHepStatus_t \<Rightarrow> int list \<Rightarrow> error + int" where
  "ParticlePosition_loop ps pdg status [] = Inr (-1)"
| "ParticlePosition_loop ps pdg status (i # rest) =
     (case at_slot ps i of
        None \<Rightarrow> Inl NullDeref
      | Some p \<Rightarrow>
          if Status p = status \<and> PdgCode p = pdg then Inr i
          else ParticlePosition_loop ps pdg status rest)"

definition ParticlePosition ::
  "GHepParticle list \<Rightarrow> int \<Rightarrow> GHepStatus_t \<Rightarrow> int \<Rightarrow> error + int" where
  "ParticlePosition ps pdg status start =
     ParticlePosition_loop ps pdg status [start .. GetEntries ps - 1]"

text \<open>
  The overload that takes a particle. \<^verbatim>\<open>GHepParticle::Compare\<close> is not among the
  sources and is the parameter \<open>Compare\<close>.
\<close>

fun ParticlePosition_of_loop ::
  "(GHepParticle \<Rightarrow> GHepParticle \<Rightarrow> bool) \<Rightarrow> GHepParticle list \<Rightarrow> GHepParticle \<Rightarrow> int list
     \<Rightarrow> error + int" where
  "ParticlePosition_of_loop Compare ps particle [] = Inr (-1)"
| "ParticlePosition_of_loop Compare ps particle (i # rest) =
     (case at_slot ps i of
        None \<Rightarrow> Inl NullDeref
      | Some p \<Rightarrow>
          if Compare p particle then Inr i
          else ParticlePosition_of_loop Compare ps particle rest)"

definition ParticlePosition_of ::
  "(GHepParticle \<Rightarrow> GHepParticle \<Rightarrow> bool) \<Rightarrow> GHepParticle list \<Rightarrow> GHepParticle \<Rightarrow> int
     \<Rightarrow> error + int" where
  "ParticlePosition_of Compare ps particle start =
     ParticlePosition_of_loop Compare ps particle [start .. GetEntries ps - 1]"

subsection \<open>The record and its summary object\<close>

text \<open>
  The record holds a pointer \<^verbatim>\<open>fInteraction\<close> to a heap-allocated \<^verbatim>\<open>Interaction\<close>
  and three flags. The heap of \<^verbatim>\<open>Interaction\<close> objects is a list of cells: an address is
  an index, \<^verbatim>\<open>new\<close> adds a cell at the end, \<^verbatim>\<open>delete\<close> empties a cell. The
  \<^verbatim>\<open>Interaction\<close> class is opaque to the record and is the type parameter \<open>'i\<close>;
  its copy constructor yields an object of equal content.
\<close>

type_synonym 'i heap = "'i option list"

definition deref :: "'i heap \<Rightarrow> nat \<Rightarrow> 'i option" where
  "deref h a = (if a < length h then h ! a else None)"

record GHepRecord =
  entries :: "GHepParticle list"
  fInteraction :: "nat option"
  fIsPauliBlocked :: bool
  fIsBelowThrNRF :: bool
  fGenericErrFlag :: bool

definition GetInteraction :: "GHepRecord \<Rightarrow> nat option" where
  "GetInteraction r = fInteraction r"

definition AttachInteraction :: "GHepRecord \<Rightarrow> nat option \<Rightarrow> GHepRecord" where
  "AttachInteraction r interaction = r\<lparr>fInteraction := interaction\<rparr>"

definition InitGHepRecord :: "GHepRecord \<Rightarrow> GHepRecord" where
  "InitGHepRecord r =
     r\<lparr>fInteraction := None, fIsPauliBlocked := False, fIsBelowThrNRF := False,
       fGenericErrFlag := False\<rparr>"

text \<open>The default constructor: an empty array, then \<^verbatim>\<open>InitGHepRecord\<close>.\<close>

definition new_GHepRecord :: GHepRecord where
  "new_GHepRecord =
     InitGHepRecord \<lparr>entries = [], fInteraction = None, fIsPauliBlocked = False,
       fIsBelowThrNRF = False, fGenericErrFlag = False\<rparr>"

text \<open>
  \<^verbatim>\<open>CleanUpGHepRecord\<close>: \<^verbatim>\<open>if (fInteraction) delete fInteraction\<close>, then
  \<^verbatim>\<open>Clear("C")\<close>. Deleting an object that is no longer alive is undefined behaviour.
\<close>

definition CleanUpGHepRecord :: "'i heap \<Rightarrow> GHepRecord \<Rightarrow> error + ('i heap \<times> GHepRecord)" where
  "CleanUpGHepRecord h r =
     (case fInteraction r of
        None \<Rightarrow> Inr (h, r\<lparr>entries := []\<rparr>)
      | Some a \<Rightarrow>
          (case deref h a of
             None \<Rightarrow> Inl DanglingPointer
           | Some v \<Rightarrow> Inr (h[a := None], r\<lparr>entries := []\<rparr>)))"

definition ResetGHepRecord :: "'i heap \<Rightarrow> GHepRecord \<Rightarrow> error + ('i heap \<times> GHepRecord)" where
  "ResetGHepRecord h r =
     (case CleanUpGHepRecord h r of
        Inl e \<Rightarrow> Inl e
      | Inr (h', r') \<Rightarrow> Inr (h', InitGHepRecord r'))"

text \<open>
  \<^verbatim>\<open>Copy\<close>: the destination \<open>this\<close> and the source \<open>record\<close> are two objects. The
  copy loop constructs a copy of each source entry at slot \<^verbatim>\<open>ientry++\<close>, which after
  the reset is the slot past the last one.
\<close>

fun copy_entries :: "GHepParticle list \<Rightarrow> GHepParticle list \<Rightarrow> GHepParticle list" where
  "copy_entries [] dst = dst"
| "copy_entries (p # rest) dst = copy_entries rest (dst @ [p])"

definition Copy :: "'i heap \<Rightarrow> GHepRecord \<Rightarrow> GHepRecord \<Rightarrow> error + ('i heap \<times> GHepRecord)" where
  "Copy h this record =
     (case ResetGHepRecord h this of
        Inl e \<Rightarrow> Inl e
      | Inr (h1, this1) \<Rightarrow>
          let this2 = this1\<lparr>entries := copy_entries (entries record) (entries this1)\<rparr> in
          (case fInteraction record of
             None \<Rightarrow> Inl NullDeref
           | Some a \<Rightarrow>
               (case deref h1 a of
                  None \<Rightarrow> Inl DanglingPointer
                | Some v \<Rightarrow>
                    Inr (h1 @ [Some v],
                         this2\<lparr>fInteraction := Some (length h1),
                               fIsPauliBlocked := fIsPauliBlocked record,
                               fIsBelowThrNRF := fIsBelowThrNRF record,
                               fGenericErrFlag := fGenericErrFlag record\<rparr>))))"

subsection \<open>Specification vocabulary\<close>

text \<open>The positions of the entries whose first mother is \<open>m\<close>, in increasing order.\<close>

definition daughter_positions :: "GHepParticle list \<Rightarrow> int \<Rightarrow> int list" where
  "daughter_positions ps m = map int (filter (\<lambda>k. FirstMother (ps ! k) = m) [0 ..< length ps])"

text \<open>
  The daughter-range invariant of the spec for the entry at \<open>i\<close>: when its range is not
  empty, the entries inside the inclusive range are exactly the entries whose first
  mother is \<open>i\<close>.
\<close>

definition daughter_range_ok :: "GHepParticle list \<Rightarrow> nat \<Rightarrow> bool" where
  "daughter_range_ok ps i =
     (FirstDaughter (ps ! i) = -1 \<or>
      list_all (\<lambda>k. (FirstMother (ps ! k) = int i) =
                     (FirstDaughter (ps ! i) \<le> int k \<and> int k \<le> LastDaughter (ps ! i)))
        [0 ..< length ps])"

definition daughter_lists_invariant :: "GHepParticle list \<Rightarrow> bool" where
  "daughter_lists_invariant ps = list_all (daughter_range_ok ps) [0 ..< length ps]"

text \<open>
  The range derived from the mother fields alone: the least and the greatest position
  among the entries whose first mother is \<open>m\<close>, or \<open>(-1,-1)\<close> when there is none.
\<close>

definition derived_range :: "GHepParticle list \<Rightarrow> int \<Rightarrow> int \<times> int" where
  "derived_range ps m =
     (let ds = daughter_positions ps m
      in if ds = [] then (-1, -1) else (Min (set ds), Max (set ds)))"

subsection \<open>Example records\<close>

definition origin :: TLorentzVector where
  "origin = (0, 0, 0, 0)"

text \<open>
  Scenario B of the spec: four entries appended with first mothers \<open>-1, 0, -1, 0\<close>, an
  initial-state neutrino and three final-state particles, none with daughters of its
  own when it is appended.
\<close>

definition scenario_B_entries :: "GHepParticle list" where
  "scenario_B_entries =
     [new_GHepParticle 14 kIStInitialState (-1) (-1) (-1) (-1) origin origin,
      new_GHepParticle 13 kIStStableFinalState 0 (-1) (-1) (-1) origin origin,
      new_GHepParticle 22 kIStStableFinalState (-1) (-1) (-1) (-1) origin origin,
      new_GHepParticle 211 kIStStableFinalState 0 (-1) (-1) (-1) origin origin]"

text \<open>The array when the fourth \<^verbatim>\<open>AddParticle\<close> call reaches the compactifier.\<close>

definition scenario_B_before :: "GHepParticle list" where
  "scenario_B_before =
     [new_GHepParticle 14 kIStInitialState (-1) (-1) 1 1 origin origin,
      new_GHepParticle 13 kIStStableFinalState 0 (-1) (-1) (-1) origin origin,
      new_GHepParticle 22 kIStStableFinalState (-1) (-1) (-1) (-1) origin origin,
      new_GHepParticle 211 kIStStableFinalState 0 (-1) (-1) (-1) origin origin]"

text \<open>The array after the first loop of the compactifier has handled position 0.\<close>

definition scenario_B_phase1 :: "GHepParticle list" where
  "scenario_B_phase1 =
     [new_GHepParticle 14 kIStInitialState (-1) (-1) 1 2 origin origin,
      new_GHepParticle 211 kIStStableFinalState 0 (-1) (-1) (-1) origin origin,
      new_GHepParticle 22 kIStStableFinalState (-1) (-1) (-1) (-1) origin origin,
      new_GHepParticle 13 kIStStableFinalState 0 (-1) (-1) (-1) origin origin]"

text \<open>The array when the fourth \<^verbatim>\<open>AddParticle\<close> call returns.\<close>

definition scenario_B_after :: "GHepParticle list" where
  "scenario_B_after =
     [new_GHepParticle 14 kIStInitialState (-1) (-1) 1 3 origin origin,
      new_GHepParticle 211 kIStStableFinalState 0 (-1) (-1) (-1) origin origin,
      new_GHepParticle 22 kIStStableFinalState (-1) (-1) (-1) (-1) origin origin,
      new_GHepParticle 13 kIStStableFinalState 0 (-1) (-1) (-1) origin origin]"

text \<open>The array after the compactifier has run once more on that result.\<close>

definition scenario_B_again :: "GHepParticle list" where
  "scenario_B_again =
     [new_GHepParticle 14 kIStInitialState (-1) (-1) 1 3 origin origin,
      new_GHepParticle 13 kIStStableFinalState 0 (-1) (-1) (-1) origin origin,
      new_GHepParticle 22 kIStStableFinalState (-1) (-1) (-1) (-1) origin origin,
      new_GHepParticle 211 kIStStableFinalState 0 (-1) (-1) (-1) origin origin]"

text \<open>
  A mother at slot 0 whose one daughter is at slot 2, and an unrelated entry at slot 1;
  and the same array after \<^verbatim>\<open>SwapParticles(0,1)\<close>.
\<close>

definition swap_example :: "GHepParticle list" where
  "swap_example =
     [new_GHepParticle 14 kIStInitialState (-1) (-1) 2 2 origin origin,
      new_GHepParticle 22 kIStStableFinalState (-1) (-1) (-1) (-1) origin origin,
      new_GHepParticle 13 kIStStableFinalState 0 (-1) (-1) (-1) origin origin]"

definition swap_example_swapped :: "GHepParticle list" where
  "swap_example_swapped =
     [new_GHepParticle 22 kIStStableFinalState (-1) (-1) (-1) (-1) origin origin,
      new_GHepParticle 14 kIStInitialState (-1) (-1) 2 2 origin origin,
      new_GHepParticle 13 kIStStableFinalState 0 (-1) (-1) (-1) origin origin]"

text \<open>A single entry whose first mother is a position the array does not have.\<close>

definition orphan_example :: "GHepParticle list" where
  "orphan_example = [new_GHepParticle 13 kIStStableFinalState 5 (-1) (-1) (-1) origin origin]"

text \<open>
  Scenario A of the spec: three entries appended with first mothers \<open>-1, 0, 0\<close>; and the
  array after the three appends.
\<close>

definition scenario_A_entries :: "GHepParticle list" where
  "scenario_A_entries =
     [new_GHepParticle 14 kIStInitialState (-1) (-1) (-1) (-1) origin origin,
      new_GHepParticle 13 kIStStableFinalState 0 (-1) (-1) (-1) origin origin,
      new_GHepParticle 211 kIStStableFinalState 0 (-1) (-1) (-1) origin origin]"

definition scenario_A_after :: "GHepParticle list" where
  "scenario_A_after =
     [new_GHepParticle 14 kIStInitialState (-1) (-1) 1 2 origin origin,
      new_GHepParticle 13 kIStStableFinalState 0 (-1) (-1) (-1) origin origin,
      new_GHepParticle 211 kIStStableFinalState 0 (-1) (-1) (-1) origin origin]"

text \<open>An entry appended at slot 1 whose mother at slot 0 already claims the range [2,3].\<close>

definition before_example :: "GHepParticle list" where
  "before_example =
     [new_GHepParticle 14 kIStInitialState (-1) (-1) 2 3 origin origin,
      new_GHepParticle 13 kIStStableFinalState 0 (-1) (-1) (-1) origin origin]"

text \<open>A record filled by Scenario B with a summary at address 0, and two of its flags set.\<close>

definition source_example :: GHepRecord where
  "source_example =
     \<lparr>entries = scenario_B_after, fInteraction = Some 0, fIsPauliBlocked = True,
      fIsBelowThrNRF = False, fGenericErrFlag = True\<rparr>"

text \<open>The same record before a summary was attached.\<close>

definition source_without_summary :: GHepRecord where
  "source_without_summary = AttachInteraction source_example None"

text \<open>A heap that holds one summary object, at address 0.\<close>

definition heap_example :: "string heap" where
  "heap_example = [Some ''nu_mu CC QES'']"

section \<open>Properties\<close>

lemma GetEntries_nonneg: "0 \<le> GetEntries ps"
  by (simp add: GetEntries_def)

lemma GetParticle_eq:
  "GetParticle ps position =
     (if position \<ge> 0 \<and> position < GetEntries ps then Some (ps ! nat position) else None)"
  by (simp add: GetParticle_def at_slot_def GetEntries_def)

subsection \<open>The compactness check\<close>

lemma collect_daughters_eq:
  "collect_daughters ps pos i acc =
     acc @ map (\<lambda>k. i + int k) (filter (\<lambda>k. FirstMother (ps ! k) = pos) [0 ..< length ps])"
proof (induction ps arbitrary: i acc)
  case Nil
  then show ?case by simp
next
  case (Cons p rest)
  have upt: "[0 ..< length (p # rest)] = 0 # map Suc [0 ..< length rest]"
    by (simp add: upt_conv_Cons map_Suc_upt del: upt_Suc)
  show ?case
    by (simp only: upt collect_daughters.simps Cons.IH)
       (simp add: filter_map comp_def add.assoc)
qed

lemma collect_daughters_positions:
  "collect_daughters ps pos 0 [] = daughter_positions ps pos"
  by (simp add: collect_daughters_eq daughter_positions_def)

lemma collect_daughters_acc:
  "collect_daughters ps pos i acc = acc @ collect_daughters ps pos i []"
  by (simp add: collect_daughters_eq)

lemma collect_daughters_Cons:
  "collect_daughters (p # rest) pos i [] =
     (if FirstMother p = pos then [i] else []) @ collect_daughters rest pos (i + 1) []"
  using collect_daughters_acc [of rest pos "i + 1" "[i]"] by simp

lemma check_consecutive_eq:
  "check_consecutive prv xs acc = (acc \<and> successively (\<lambda>a b. \<bar>a - b\<bar> \<le> 1) (prv # xs))"
  by (induction xs arbitrary: prv acc) auto

lemma HasCompactDaughterList_successively:
  "HasCompactDaughterList ps m =
     (length (daughter_positions ps m) < 2 \<or>
      successively (\<lambda>a b. \<bar>a - b\<bar> \<le> 1) (sort (daughter_positions ps m)))"
proof (cases "length (daughter_positions ps m) > 1")
  case False
  then show ?thesis
    by (simp add: HasCompactDaughterList_def collect_daughters_positions Let_def)
next
  case True
  then obtain d rest where s: "sort (daughter_positions ps m) = d # rest"
    by (cases "sort (daughter_positions ps m)") (auto dest: arg_cong [where f = length])
  from True show ?thesis
    by (simp add: HasCompactDaughterList_def collect_daughters_positions Let_def s
        check_consecutive_eq)
qed


text \<open>
  Claim C8. The compactness check for a candidate mother position \<open>m\<close> collects the
  positions whose first mother is \<open>m\<close>; it answers compact when there are fewer than
  two, and otherwise exactly when every two neighbours of the sorted positions differ by
  at most 1.
\<close>

theorem HasCompactDaughterList_spec:
  "set (daughter_positions ps m) = {int k | k. k < length ps \<and> FirstMother (ps ! k) = m} \<and>
   HasCompactDaughterList ps m =
     (let ds = sort (daughter_positions ps m)
      in length ds < 2 \<or> (\<forall>j. Suc j < length ds \<longrightarrow> \<bar>ds ! j - ds ! Suc j\<bar> \<le> 1))"
proof
  show "set (daughter_positions ps m) = {int k | k. k < length ps \<and> FirstMother (ps ! k) = m}"
    by (auto simp: daughter_positions_def)
  show "HasCompactDaughterList ps m =
     (let ds = sort (daughter_positions ps m)
      in length ds < 2 \<or> (\<forall>j. Suc j < length ds \<longrightarrow> \<bar>ds ! j - ds ! Suc j\<bar> \<le> 1))"
    by (simp add: HasCompactDaughterList_successively successively_conv_nth Let_def)
qed

theorem HasCompactDaughterList_spec_witness:
  "daughter_positions scenario_B_before 0 = [1, 3] \<and>
   \<not> HasCompactDaughterList scenario_B_before 0 \<and>
   daughter_positions scenario_B_before 2 = [] \<and>
   HasCompactDaughterList scenario_B_before 2"
proof -
  have ds: "daughter_positions scenario_B_before 0 = [1, 3]"
    by code_simp
  have ds2: "daughter_positions scenario_B_before 2 = []"
    by code_simp
  have gap: "\<not> (\<forall>j. Suc j < length [1, 3 :: int] \<longrightarrow> \<bar>[1, 3 :: int] ! j - [1, 3] ! Suc j\<bar> \<le> 1)"
    by (auto intro: exI [of _ 0])
  from HasCompactDaughterList_spec [of scenario_B_before 0] ds gap
  have "\<not> HasCompactDaughterList scenario_B_before 0"
    by (simp add: Let_def)
  moreover from HasCompactDaughterList_spec [of scenario_B_before 2] ds2
  have "HasCompactDaughterList scenario_B_before 2"
    by (simp add: Let_def)
  ultimately show ?thesis using ds ds2 by simp
qed

subsection \<open>The derivation pass\<close>

lemma Min_insert_insert:
  "finite S \<Longrightarrow> Min (insert (min a b) S) = min (a::int) (Min (insert b S))"
  by (cases "S = {}") (simp_all add: min.assoc)

lemma Max_insert_insert:
  "finite S \<Longrightarrow> Max (insert (max a b) S) = max (a::int) (Max (insert b S))"
  by (cases "S = {}") (simp_all add: max.assoc)

lemma scan_daughters_started:
  "0 \<le> dau1 \<Longrightarrow> 0 \<le> dau2 \<Longrightarrow> 0 \<le> i2 \<Longrightarrow>
   scan_daughters qs i1 i2 (dau1, dau2) =
     (Min (insert dau1 (set (collect_daughters qs i1 i2 []))),
      Max (insert dau2 (set (collect_daughters qs i1 i2 []))))"
proof (induction qs arbitrary: i2 dau1 dau2)
  case Nil
  then show ?case by simp
next
  case (Cons p2 rest)
  show ?case
  proof (cases "FirstMother p2 = i1")
    case True
    have "scan_daughters (p2 # rest) i1 i2 (dau1, dau2) =
            scan_daughters rest i1 (i2 + 1) (min dau1 i2, max dau2 i2)"
      using True Cons.prems by (simp add: not_less [symmetric])
    also have "\<dots> = (Min (insert (min dau1 i2) (set (collect_daughters rest i1 (i2 + 1) []))),
                     Max (insert (max dau2 i2) (set (collect_daughters rest i1 (i2 + 1) []))))"
      using Cons.prems by (intro Cons.IH) auto
    finally show ?thesis
      using True Cons.prems
      by (simp add: collect_daughters_Cons Min_insert_insert Max_insert_insert
          del: collect_daughters.simps)
  next
    case False
    then show ?thesis
      using Cons.prems Cons.IH [of dau1 dau2 "i2 + 1"]
      by (simp add: collect_daughters_Cons del: collect_daughters.simps)
  qed
qed

lemma scan_daughters_fresh:
  "0 \<le> i2 \<Longrightarrow>
   scan_daughters qs i1 i2 (-1, -1) =
     (if collect_daughters qs i1 i2 [] = [] then (-1, -1)
      else (Min (set (collect_daughters qs i1 i2 [])), Max (set (collect_daughters qs i1 i2 []))))"
proof (induction qs arbitrary: i2)
  case Nil
  then show ?case by simp
next
  case (Cons p2 rest)
  show ?case
  proof (cases "FirstMother p2 = i1")
    case True
    then show ?thesis
      using Cons.prems scan_daughters_started [of i2 i2 "i2 + 1" rest i1]
      by (simp add: collect_daughters_Cons del: collect_daughters.simps)
  next
    case False
    then show ?thesis
      using Cons.prems Cons.IH [of "i2 + 1"]
      by (simp add: collect_daughters_Cons del: collect_daughters.simps)
  qed
qed

lemma scan_daughters_derived: "scan_daughters ps m 0 (-1, -1) = derived_range ps m"
  by (simp add: scan_daughters_fresh collect_daughters_positions derived_range_def Let_def)

lemma daughter_positions_cong:
  assumes "length ps' = length ps"
    and "\<And>k. k < length ps \<Longrightarrow> FirstMother (ps' ! k) = FirstMother (ps ! k)"
  shows "daughter_positions ps' m = daughter_positions ps m"
  unfolding daughter_positions_def using assms
  by (auto intro!: arg_cong [where f = "map int"] filter_cong)

lemma derived_range_cong:
  assumes "length ps' = length ps"
    and "\<And>k. k < length ps \<Longrightarrow> FirstMother (ps' ! k) = FirstMother (ps ! k)"
  shows "derived_range ps' m = derived_range ps m"
  by (simp add: derived_range_def daughter_positions_cong [OF assms])

lemma finalize_from_nth:
  "distinct js \<Longrightarrow> \<forall>j \<in> set js. j < length ps \<Longrightarrow>
   length (finalize_from js ps) = length ps \<and>
   (\<forall>k < length ps.
      finalize_from js ps ! k =
        (if k \<in> set js
         then (ps ! k)\<lparr>FirstDaughter := fst (derived_range ps (int k)),
                       LastDaughter := snd (derived_range ps (int k))\<rparr>
         else ps ! k))"
proof (induction js arbitrary: ps)
  case Nil
  then show ?case by simp
next
  case (Cons i1 rest)
  define ps1 where
    "ps1 = ps[i1 := (ps ! i1)\<lparr>FirstDaughter := fst (derived_range ps (int i1)),
                               LastDaughter := snd (derived_range ps (int i1))\<rparr>]"
  have step: "finalize_from (i1 # rest) ps = finalize_from rest ps1"
    by (simp add: ps1_def scan_daughters_derived split: prod.split)
  have len: "length ps1 = length ps" by (simp add: ps1_def)
  have mom: "FirstMother (ps1 ! k) = FirstMother (ps ! k)" if "k < length ps" for k
    using that by (cases "k = i1") (simp_all add: ps1_def)
  have dr: "derived_range ps1 m = derived_range ps m" for m
    by (rule derived_range_cong [OF len mom])
  have IH: "length (finalize_from rest ps1) = length ps1 \<and>
    (\<forall>k < length ps1.
      finalize_from rest ps1 ! k =
        (if k \<in> set rest
         then (ps1 ! k)\<lparr>FirstDaughter := fst (derived_range ps1 (int k)),
                        LastDaughter := snd (derived_range ps1 (int k))\<rparr>
         else ps1 ! k))"
    using Cons.prems by (intro Cons.IH) (auto simp: len)
  show ?case
  proof (intro conjI allI impI)
    show "length (finalize_from (i1 # rest) ps) = length ps"
      using IH by (simp only: step len)
  next
    fix k assume k: "k < length ps"
    have A: "finalize_from rest ps1 ! k =
        (if k \<in> set rest
         then (ps1 ! k)\<lparr>FirstDaughter := fst (derived_range ps (int k)),
                        LastDaughter := snd (derived_range ps (int k))\<rparr>
         else ps1 ! k)"
      using IH k len by (simp add: dr)
    have B: "ps1 ! k =
        (if k = i1
         then (ps ! i1)\<lparr>FirstDaughter := fst (derived_range ps (int i1)),
                        LastDaughter := snd (derived_range ps (int i1))\<rparr>
         else ps ! k)"
      using k by (simp add: ps1_def nth_list_update)
    have C: "i1 \<notin> set rest" using Cons.prems by simp
    show "finalize_from (i1 # rest) ps ! k =
        (if k \<in> set (i1 # rest)
         then (ps ! k)\<lparr>FirstDaughter := fst (derived_range ps (int k)),
                       LastDaughter := snd (derived_range ps (int k))\<rparr>
         else ps ! k)"
      unfolding step A B using C by auto
  qed
qed

lemma FinalizeDaughterLists_nth:
  "length (FinalizeDaughterLists ps) = length ps \<and>
   (\<forall>k < length ps.
      FinalizeDaughterLists ps ! k =
        (ps ! k)\<lparr>FirstDaughter := fst (derived_range ps (int k)),
                  LastDaughter := snd (derived_range ps (int k))\<rparr>)"
  using finalize_from_nth [of "[0 ..< length ps]" ps]
  by (simp add: FinalizeDaughterLists_def)

lemma daughter_positions_set:
  "set (daughter_positions ps m) = int ` {k. k < length ps \<and> FirstMother (ps ! k) = m}"
  by (auto simp: daughter_positions_def)

lemma derived_range_sets:
  "derived_range ps m =
     (let D = {k. k < length ps \<and> FirstMother (ps ! k) = m}
      in if D = {} then (-1, -1) else (int (Min D), int (Max D)))"
proof -
  let ?D = "{k. k < length ps \<and> FirstMother (ps ! k) = m}"
  have fin: "finite ?D" by simp
  have e: "(daughter_positions ps m = []) = (?D = {})"
    by (auto simp: daughter_positions_def filter_empty_conv)
  have mn: "Min (int ` ?D) = int (Min ?D)" if "?D \<noteq> {}"
    using mono_Min_commute [of int ?D] that fin by (simp add: mono_def)
  have mx: "Max (int ` ?D) = int (Max ?D)" if "?D \<noteq> {}"
    using mono_Max_commute [of int ?D] that fin by (simp add: mono_def)
  show ?thesis
    by (simp add: derived_range_def Let_def e daughter_positions_set mn mx)
qed

lemma FinalizeDaughterLists_entry:
  "i < length ps \<Longrightarrow>
   FinalizeDaughterLists ps ! i =
     (ps ! i)\<lparr>FirstDaughter := fst (derived_range ps (int i)),
               LastDaughter := snd (derived_range ps (int i))\<rparr>"
  by (rule FinalizeDaughterLists_nth [THEN conjunct2, rule_format])

lemma FinalizeDaughterLists_FirstMother:
  "k < length ps \<Longrightarrow> FirstMother (FinalizeDaughterLists ps ! k) = FirstMother (ps ! k)"
  by (simp add: FinalizeDaughterLists_entry)


text \<open>
  Claim C6. The derivation pass \<^verbatim>\<open>FinalizeDaughterLists\<close> changes nothing but the
  daughter fields, and sets the daughter range of every position \<open>i\<close> to the least and
  the greatest position among the entries whose first mother is \<open>i\<close>, or to
  \<open>(-1,-1)\<close> when there is none, whatever range the entry held before. A run of
  \<^verbatim>\<open>CompactifyDaughterLists\<close> that returns has applied this pass to the result of
  its first loop.
\<close>

theorem FinalizeDaughterLists_recomputes_ranges:
  "length (FinalizeDaughterLists ps) = length ps \<and>
   (\<forall>i < length ps.
      (\<exists>dau1 dau2. FinalizeDaughterLists ps ! i =
                      (ps ! i)\<lparr>FirstDaughter := dau1, LastDaughter := dau2\<rparr>) \<and>
      (let D = {k. k < length ps \<and> FirstMother (FinalizeDaughterLists ps ! k) = int i}
       in if D = {}
          then FirstDaughter (FinalizeDaughterLists ps ! i) = -1 \<and>
               LastDaughter (FinalizeDaughterLists ps ! i) = -1
          else FirstDaughter (FinalizeDaughterLists ps ! i) = int (Min D) \<and>
               LastDaughter (FinalizeDaughterLists ps ! i) = int (Max D))) \<and>
   (CompactifyDaughterLists ps0 = Inr ps' \<longrightarrow>
      (\<exists>ps1 start. compactify_phase1 ps0 = Inr (ps1, start) \<and>
                    ps' = FinalizeDaughterLists ps1))"
proof (intro conjI allI impI)
  show "length (FinalizeDaughterLists ps) = length ps"
    using FinalizeDaughterLists_nth [of ps] by simp
next
  fix i assume i: "i < length ps"
  show "\<exists>dau1 dau2. FinalizeDaughterLists ps ! i =
                      (ps ! i)\<lparr>FirstDaughter := dau1, LastDaughter := dau2\<rparr>"
    by (intro exI) (rule FinalizeDaughterLists_entry [OF i])
next
  fix i assume i: "i < length ps"
  have same: "{k. k < length ps \<and> FirstMother (FinalizeDaughterLists ps ! k) = int i} =
              {k. k < length ps \<and> FirstMother (ps ! k) = int i}"
    by (rule Collect_cong) (auto simp: FinalizeDaughterLists_FirstMother)
  have "FinalizeDaughterLists ps ! i =
          (ps ! i)\<lparr>FirstDaughter := fst (derived_range ps (int i)),
                    LastDaughter := snd (derived_range ps (int i))\<rparr>"
    by (rule FinalizeDaughterLists_entry [OF i])
  then show "let D = {k. k < length ps \<and> FirstMother (FinalizeDaughterLists ps ! k) = int i}
       in if D = {}
          then FirstDaughter (FinalizeDaughterLists ps ! i) = -1 \<and>
               LastDaughter (FinalizeDaughterLists ps ! i) = -1
          else FirstDaughter (FinalizeDaughterLists ps ! i) = int (Min D) \<and>
               LastDaughter (FinalizeDaughterLists ps ! i) = int (Max D)"
    unfolding same by (simp add: derived_range_sets Let_def)
next
  assume "CompactifyDaughterLists ps0 = Inr ps'"
  then show "\<exists>ps1 start. compactify_phase1 ps0 = Inr (ps1, start) \<and>
                    ps' = FinalizeDaughterLists ps1"
    by (auto simp: CompactifyDaughterLists_def split: sum.splits)
qed


theorem FinalizeDaughterLists_recomputes_ranges_witness:
  "CompactifyDaughterLists scenario_B_before = Inr scenario_B_after \<and>
   compactify_phase1 scenario_B_before = Inr (scenario_B_phase1, 2) \<and>
   scenario_B_after = FinalizeDaughterLists scenario_B_phase1 \<and>
   LastDaughter (scenario_B_phase1 ! 0) = 2 \<and>
   {k. k < length scenario_B_phase1 \<and> FirstMother (scenario_B_after ! k) = int 0} = {1, 3} \<and>
   FirstDaughter (scenario_B_after ! 0) = 1 \<and>
   LastDaughter (scenario_B_after ! 0) = 3"
proof -
  have c: "CompactifyDaughterLists scenario_B_before = Inr scenario_B_after"
    by code_simp
  have p: "compactify_phase1 scenario_B_before = Inr (scenario_B_phase1, 2)"
    by code_simp
  have len: "0 < length scenario_B_phase1"
    by code_simp
  have l2: "LastDaughter (scenario_B_phase1 ! 0) = 2"
    by code_simp
  have D: "{k. k < length scenario_B_phase1 \<and> FirstMother (scenario_B_after ! k) = int 0} = {1, 3}"
  proof -
    have "{k. k < length scenario_B_phase1 \<and> FirstMother (scenario_B_after ! k) = int 0} =
          set (filter (\<lambda>k. FirstMother (scenario_B_after ! k) = int 0)
                 [0 ..< length scenario_B_phase1])"
      by auto
    also have "\<dots> = {1, 3}"
      by code_simp
    finally show ?thesis .
  qed
  note t = FinalizeDaughterLists_recomputes_ranges
             [of scenario_B_phase1 scenario_B_before scenario_B_after]
  from t [THEN conjunct2, THEN conjunct2, rule_format, OF c]
  obtain ps1 start where
    p1: "compactify_phase1 scenario_B_before = Inr (ps1, start)" and
    f1: "scenario_B_after = FinalizeDaughterLists ps1"
    by blast
  from p1 p have "ps1 = scenario_B_phase1"
    by simp
  with f1 have fin: "scenario_B_after = FinalizeDaughterLists scenario_B_phase1"
    by simp
  note r = t [THEN conjunct2, THEN conjunct1, rule_format, OF len, THEN conjunct2,
              folded fin, unfolded D Let_def]
  have rng: "FirstDaughter (scenario_B_after ! 0) = 1 \<and> LastDaughter (scenario_B_after ! 0) = 3"
    using r by simp
  show ?thesis
    by (intro conjI c p fin l2 D rng [THEN conjunct1] rng [THEN conjunct2])
qed


subsection \<open>The compactifier and the swap on examples\<close>

text \<open>
  Claim C1. The spec's invariant says that after \<^verbatim>\<open>AddParticle\<close> returns, the range
  of every entry with daughters holds exactly the entries whose first mother it is. The
  four appends of Scenario B run the compactifier, and the array it leaves has the two
  daughters of entry 0 at slots 1 and 3, the unrelated entry still between them at slot
  2, and the range \<open>[1,3]\<close> for entry 0: the invariant does not hold.
\<close>

theorem scenario_B_breaks_daughter_invariant:
  "AddParticles [] scenario_B_entries =
     Inr ([NoMother, ListWasEmpty, NoMother, RanCompactifier], scenario_B_after) \<and>
   \<not> daughter_lists_invariant scenario_B_after \<and>
   FirstDaughter (scenario_B_after ! 0) = 1 \<and>
   LastDaughter (scenario_B_after ! 0) = 3 \<and>
   map FirstMother scenario_B_after = [-1, 0, -1, 0]"
  by code_simp

text \<open>
  Claim C2. The spec's swap contract says that the entries whose first mother was the
  occupant of slot \<open>a\<close> point, after the swap, to the slot that now holds that
  occupant. \<^verbatim>\<open>SwapParticles(0,1)\<close> moves the mother from slot 0 to slot 1 and
  writes 0 again into the first mother of its daughter at slot 2, which now names the
  unrelated entry.
\<close>

theorem SwapParticles_leaves_stale_mother:
  "SwapParticles swap_example 0 1 = Inr swap_example_swapped \<and>
   FirstMother (swap_example ! 2) = 0 \<and>
   FirstMother (swap_example_swapped ! 2) = 0 \<and>
   swap_example_swapped ! 1 = swap_example ! 0 \<and>
   swap_example_swapped ! 0 \<noteq> swap_example ! 0"
  by code_simp

text \<open>
  Claim C3. The spec's Phase 1 scans from the cursor position itself and sets the range
  \<open>[cursor - count, cursor - 1]\<close>. On Scenario B the cursor is 1 and the entry at slot 1
  is a daughter of 0; the code's scan starts at slot 2, finds one daughter (at slot 3),
  swaps slots 1 and 3, ends with cursor 2 and count 1, and sets the range \<open>[1,2]\<close>,
  that is \<^verbatim>\<open>[dau1, dau1+ndau]\<close>.
\<close>

theorem compactify_entry_skips_cursor_slot:
  "GetEntries scenario_B_before = 4 \<and>
   FirstNonInitStateEntry scenario_B_before = 1 \<and>
   HasCompactDaughterList scenario_B_before 0 = False \<and>
   FirstMother (scenario_B_before ! 1) = 0 \<and>
   compactify_scan 0 [1 + 1 .. 4 - 1] (scenario_B_before, 1, 0) =
     Inr (scenario_B_phase1[0 := scenario_B_before ! 0], 2, 1) \<and>
   compactify_entry 4 0 (scenario_B_before, 1) = Inr (scenario_B_phase1, 2) \<and>
   map FirstMother scenario_B_phase1 = [-1, 0, -1, 0] \<and>
   (FirstDaughter (scenario_B_phase1 ! 0), LastDaughter (scenario_B_phase1 ! 0)) = (1, 2)"
  by code_simp

text \<open>
  Claim C4. The spec says that a second run of the full compaction changes neither the
  layout nor the ranges. On the Scenario B array the first run leaves the daughters of
  entry 0 apart, so the second run swaps them again: the layouts differ.
\<close>

theorem CompactifyDaughterLists_twice_differs:
  "CompactifyDaughterLists scenario_B_before = Inr scenario_B_after \<and>
   CompactifyDaughterLists scenario_B_after = Inr scenario_B_again \<and>
   scenario_B_again \<noteq> scenario_B_after \<and>
   map PdgCode scenario_B_after = [14, 211, 22, 13] \<and>
   map PdgCode scenario_B_again = [14, 13, 22, 211]"
  by code_simp


subsection \<open>The incremental update\<close>

lemma GetParticle_last:
  "ps \<noteq> [] \<Longrightarrow> GetParticle ps (int (length ps) - 1) = Some (last ps)"
  by (simp add: GetParticle_eq GetEntries_def last_conv_nth nat_diff_distrib')

lemma GetParticle_valid:
  "0 \<le> m \<Longrightarrow> m < int (length ps) \<Longrightarrow> GetParticle ps m = Some (ps ! nat m)"
  by (simp add: GetParticle_eq GetEntries_def)

lemma GetParticle_invalid:
  "\<not> (0 \<le> m \<and> m < int (length ps)) \<Longrightarrow> GetParticle ps m = None"
  by (simp add: GetParticle_eq GetEntries_def)

lemma UpdateDaughterLists_NoMother:
  "ps \<noteq> [] \<Longrightarrow> FirstMother (last ps) = -1 \<Longrightarrow> UpdateDaughterLists ps = Inr (NoMother, ps)"
  by (simp add: UpdateDaughterLists_def GetEntries_def GetParticle_last Let_def)

lemma UpdateDaughterLists_MotherNotFound:
  "ps \<noteq> [] \<Longrightarrow> FirstMother (last ps) \<noteq> -1 \<Longrightarrow>
   \<not> (0 \<le> FirstMother (last ps) \<and> FirstMother (last ps) < int (length ps)) \<Longrightarrow>
   UpdateDaughterLists ps = Inr (MotherNotFound, ps)"
  by (simp add: UpdateDaughterLists_def GetEntries_def GetParticle_last GetParticle_invalid Let_def)

lemma UpdateDaughterLists_mother:
  assumes "ps \<noteq> []" "0 \<le> FirstMother (last ps)" "FirstMother (last ps) < int (length ps)"
  shows "UpdateDaughterLists ps =
     (let pos = int (length ps) - 1; m = FirstMother (last ps); mom = ps ! nat m in
      if FirstDaughter mom = -1
      then Inr (ListWasEmpty, ps[nat m := mom\<lparr>FirstDaughter := pos, LastDaughter := pos\<rparr>])
      else if pos = FirstDaughter mom - 1
      then Inr (ExtendedBefore, ps[nat m := mom\<lparr>FirstDaughter := pos\<rparr>])
      else if pos = LastDaughter mom + 1
      then Inr (ExtendedAfter, ps[nat m := mom\<lparr>LastDaughter := pos\<rparr>])
      else (case CompactifyDaughterLists ps of
              Inl e \<Rightarrow> Inl e
            | Inr ps' \<Rightarrow> Inr (RanCompactifier, ps')))"
proof -
  have m1: "FirstMother (last ps) \<noteq> -1" using assms(2) by simp
  show ?thesis
    using m1
    by (simp add: UpdateDaughterLists_def GetParticle_last [OF assms(1)]
        GetParticle_valid [OF assms(2,3)] Let_def GetEntries_def)
qed

lemma scenario_A:
  assumes "FirstMother a = -1" "FirstDaughter a = -1" "FirstMother b = 0" "FirstMother c = 0"
  shows "AddParticles [] [a, b, c] =
           Inr ([NoMother, ListWasEmpty, ExtendedAfter],
                [a\<lparr>FirstDaughter := 1, LastDaughter := 2\<rparr>, b, c])"
proof -
  have 1: "AddParticle [] a = Inr (NoMother, [a])"
    using assms by (simp add: AddParticle_def UpdateDaughterLists_NoMother)
  have 2: "AddParticle [a] b = Inr (ListWasEmpty, [a\<lparr>FirstDaughter := 1, LastDaughter := 1\<rparr>, b])"
    using assms by (simp add: AddParticle_def UpdateDaughterLists_mother Let_def)
  have 3: "AddParticle [a\<lparr>FirstDaughter := 1, LastDaughter := 1\<rparr>, b] c =
             Inr (ExtendedAfter, [a\<lparr>FirstDaughter := 1, LastDaughter := 2\<rparr>, b, c])"
    using assms by (simp add: AddParticle_def UpdateDaughterLists_mother Let_def)
  show ?thesis by (simp add: 1 2 3)
qed


text \<open>
  Claim C5, as amended. \<^verbatim>\<open>UpdateDaughterLists\<close>, applied to the array whose last entry
  (at position \<open>pos\<close>) was just appended, follows exactly these cases: if the entry has
  no mother (first mother \<open>-1\<close>), or its first mother is not a position of the array,
  the array is unchanged; else if the mother has no daughters its range becomes
  \<open>[pos, pos]\<close>; else if \<open>pos\<close> is the mother's first daughter minus one, only the first
  daughter is lowered to \<open>pos\<close>; else if \<open>pos\<close> is the mother's last daughter plus one,
  only the last daughter is raised to \<open>pos\<close>; otherwise the result is that of
  \<^verbatim>\<open>CompactifyDaughterLists\<close>. Appending three entries with first mothers
  \<open>-1, 0, 0\<close>, the first without daughters, gives entry 0 the range \<open>[1,2]\<close> and no call
  runs the compactifier.
\<close>

theorem UpdateDaughterLists_cases:
  assumes "ps \<noteq> []"
  shows
    "(let pos = int (length ps) - 1; m = FirstMother (last ps) in
      (m = -1 \<longrightarrow> UpdateDaughterLists ps = Inr (NoMother, ps)) \<and>
      (m \<noteq> -1 \<and> \<not> (0 \<le> m \<and> m < int (length ps)) \<longrightarrow>
         UpdateDaughterLists ps = Inr (MotherNotFound, ps)) \<and>
      (0 \<le> m \<and> m < int (length ps) \<longrightarrow>
         (let mom = ps ! nat m in
          (FirstDaughter mom = -1 \<longrightarrow>
             UpdateDaughterLists ps =
               Inr (ListWasEmpty, ps[nat m := mom\<lparr>FirstDaughter := pos, LastDaughter := pos\<rparr>])) \<and>
          (FirstDaughter mom \<noteq> -1 \<and> pos = FirstDaughter mom - 1 \<longrightarrow>
             UpdateDaughterLists ps =
               Inr (ExtendedBefore, ps[nat m := mom\<lparr>FirstDaughter := pos\<rparr>])) \<and>
          (FirstDaughter mom \<noteq> -1 \<and> pos \<noteq> FirstDaughter mom - 1 \<and> pos = LastDaughter mom + 1 \<longrightarrow>
             UpdateDaughterLists ps =
               Inr (ExtendedAfter, ps[nat m := mom\<lparr>LastDaughter := pos\<rparr>])) \<and>
          (FirstDaughter mom \<noteq> -1 \<and> pos \<noteq> FirstDaughter mom - 1 \<and> pos \<noteq> LastDaughter mom + 1 \<longrightarrow>
             UpdateDaughterLists ps =
               (case CompactifyDaughterLists ps of
                  Inl e \<Rightarrow> Inl e
                | Inr ps' \<Rightarrow> Inr (RanCompactifier, ps')))))) \<and>
     (FirstMother a = -1 \<and> FirstDaughter a = -1 \<and> FirstMother b = 0 \<and> FirstMother c = 0 \<longrightarrow>
        AddParticles [] [a, b, c] =
          Inr ([NoMother, ListWasEmpty, ExtendedAfter],
               [a\<lparr>FirstDaughter := 1, LastDaughter := 2\<rparr>, b, c]))"
proof (intro conjI)
  show "let pos = int (length ps) - 1; m = FirstMother (last ps) in
      (m = -1 \<longrightarrow> UpdateDaughterLists ps = Inr (NoMother, ps)) \<and>
      (m \<noteq> -1 \<and> \<not> (0 \<le> m \<and> m < int (length ps)) \<longrightarrow>
         UpdateDaughterLists ps = Inr (MotherNotFound, ps)) \<and>
      (0 \<le> m \<and> m < int (length ps) \<longrightarrow>
         (let mom = ps ! nat m in
          (FirstDaughter mom = -1 \<longrightarrow>
             UpdateDaughterLists ps =
               Inr (ListWasEmpty, ps[nat m := mom\<lparr>FirstDaughter := pos, LastDaughter := pos\<rparr>])) \<and>
          (FirstDaughter mom \<noteq> -1 \<and> pos = FirstDaughter mom - 1 \<longrightarrow>
             UpdateDaughterLists ps =
               Inr (ExtendedBefore, ps[nat m := mom\<lparr>FirstDaughter := pos\<rparr>])) \<and>
          (FirstDaughter mom \<noteq> -1 \<and> pos \<noteq> FirstDaughter mom - 1 \<and> pos = LastDaughter mom + 1 \<longrightarrow>
             UpdateDaughterLists ps =
               Inr (ExtendedAfter, ps[nat m := mom\<lparr>LastDaughter := pos\<rparr>])) \<and>
          (FirstDaughter mom \<noteq> -1 \<and> pos \<noteq> FirstDaughter mom - 1 \<and> pos \<noteq> LastDaughter mom + 1 \<longrightarrow>
             UpdateDaughterLists ps =
               (case CompactifyDaughterLists ps of
                  Inl e \<Rightarrow> Inl e
                | Inr ps' \<Rightarrow> Inr (RanCompactifier, ps')))))"
    unfolding Let_def
  proof (intro conjI impI; (elim conjE)?)
    assume "FirstMother (last ps) = -1"
    then show "UpdateDaughterLists ps = Inr (NoMother, ps)"
      by (rule UpdateDaughterLists_NoMother [OF assms])
  next
    assume "FirstMother (last ps) \<noteq> -1"
      "\<not> (0 \<le> FirstMother (last ps) \<and> FirstMother (last ps) < int (length ps))"
    then show "UpdateDaughterLists ps = Inr (MotherNotFound, ps)"
      by (rule UpdateDaughterLists_MotherNotFound [OF assms])
  qed (simp_all add: UpdateDaughterLists_mother [OF assms] Let_def)
next
  show "FirstMother a = -1 \<and> FirstDaughter a = -1 \<and> FirstMother b = 0 \<and> FirstMother c = 0 \<longrightarrow>
        AddParticles [] [a, b, c] =
          Inr ([NoMother, ListWasEmpty, ExtendedAfter],
               [a\<lparr>FirstDaughter := 1, LastDaughter := 2\<rparr>, b, c])"
    using scenario_A by blast
qed

theorem UpdateDaughterLists_cases_witness:
  "UpdateDaughterLists [scenario_A_entries ! 0] = Inr (NoMother, [scenario_A_entries ! 0]) \<and>
   UpdateDaughterLists orphan_example = Inr (MotherNotFound, orphan_example) \<and>
   UpdateDaughterLists (take 2 scenario_A_entries) =
     Inr (ListWasEmpty, (take 2 scenario_A_entries)
            [0 := (scenario_A_entries ! 0)\<lparr>FirstDaughter := 1, LastDaughter := 1\<rparr>]) \<and>
   UpdateDaughterLists before_example =
     Inr (ExtendedBefore, before_example[0 := (before_example ! 0)\<lparr>FirstDaughter := 1\<rparr>]) \<and>
   UpdateDaughterLists (scenario_A_after[0 := (scenario_A_after ! 0)\<lparr>LastDaughter := 1\<rparr>]) =
     Inr (ExtendedAfter, scenario_A_after) \<and>
   UpdateDaughterLists scenario_B_before = Inr (RanCompactifier, scenario_B_after) \<and>
   AddParticles [] scenario_A_entries =
     Inr ([NoMother, ListWasEmpty, ExtendedAfter], scenario_A_after)"
proof -
  note defs = scenario_A_entries_def scenario_A_after_def orphan_example_def before_example_def
    new_GHepParticle_def Let_def
  have c: "CompactifyDaughterLists scenario_B_before = Inr scenario_B_after"
    by code_simp
  have b: "scenario_B_before \<noteq> [] \<and> FirstMother (last scenario_B_before) = 0 \<and>
           length scenario_B_before = 4 \<and>
           FirstDaughter (scenario_B_before ! 0) = 1 \<and> LastDaughter (scenario_B_before ! 0) = 1"
    by code_simp
  have 1: "UpdateDaughterLists [scenario_A_entries ! 0] = Inr (NoMother, [scenario_A_entries ! 0])"
    using UpdateDaughterLists_cases [of "[scenario_A_entries ! 0]"] by (simp add: defs)
  have 2: "UpdateDaughterLists orphan_example = Inr (MotherNotFound, orphan_example)"
    using UpdateDaughterLists_cases [of orphan_example] by (simp add: defs)
  have 3: "UpdateDaughterLists (take 2 scenario_A_entries) =
     Inr (ListWasEmpty, (take 2 scenario_A_entries)
            [0 := (scenario_A_entries ! 0)\<lparr>FirstDaughter := 1, LastDaughter := 1\<rparr>])"
    using UpdateDaughterLists_cases [of "take 2 scenario_A_entries"] by (simp add: defs)
  have 4: "UpdateDaughterLists before_example =
     Inr (ExtendedBefore, before_example[0 := (before_example ! 0)\<lparr>FirstDaughter := 1\<rparr>])"
    using UpdateDaughterLists_cases [of before_example] by (simp add: defs)
  have 5: "UpdateDaughterLists (scenario_A_after[0 := (scenario_A_after ! 0)\<lparr>LastDaughter := 1\<rparr>]) =
     Inr (ExtendedAfter, scenario_A_after)"
    using UpdateDaughterLists_cases
            [of "scenario_A_after[0 := (scenario_A_after ! 0)\<lparr>LastDaughter := 1\<rparr>]"]
    by (simp add: defs)
  have 6: "UpdateDaughterLists scenario_B_before = Inr (RanCompactifier, scenario_B_after)"
    using UpdateDaughterLists_cases [of scenario_B_before] b by (simp add: Let_def c)
  have 7: "AddParticles [] scenario_A_entries =
     Inr ([NoMother, ListWasEmpty, ExtendedAfter], scenario_A_after)"
    using UpdateDaughterLists_cases
            [of "[scenario_A_entries ! 0]" "scenario_A_entries ! 0" "scenario_A_entries ! 1"
                "scenario_A_entries ! 2"]
    by (simp add: defs)
  show ?thesis
    by (intro conjI 1 2 3 4 5 6 7)
qed

text \<open>
  The claim as written has no case for a first mother that is neither \<open>-1\<close> nor a
  position of the array: the entry below has first mother 5 in an array of one entry,
  and the update returns the array unchanged without running the compactifier. And
  three appends with first mothers \<open>-1, 0, 0\<close> do run the compactifier when the first
  entry is appended with a daughter range already set (here \<open>[5,6]\<close>).
\<close>

theorem UpdateDaughterLists_orphan_counterexample:
  "FirstMother (last orphan_example) = 5 \<and>
   UpdateDaughterLists orphan_example = Inr (MotherNotFound, orphan_example) \<and>
   AddParticle [] (last orphan_example) = Inr (MotherNotFound, orphan_example) \<and>
   map FirstMother
     (new_GHepParticle 14 kIStInitialState (-1) (-1) 5 6 origin origin # tl scenario_A_entries) =
     [-1, 0, 0] \<and>
   AddParticles []
     (new_GHepParticle 14 kIStInitialState (-1) (-1) 5 6 origin origin # tl scenario_A_entries) =
     Inr ([NoMother, RanCompactifier, ExtendedAfter], scenario_A_after)"
  by code_simp

subsection \<open>Lookups that find nothing\<close>

lemma at_slot_valid: "0 \<le> i \<Longrightarrow> i < GetEntries ps \<Longrightarrow> at_slot ps i = Some (ps ! nat i)"
  by (simp add: at_slot_def GetEntries_def)

lemma FindParticle_loop_none:
  "\<forall>i \<in> set js. 0 \<le> i \<and> i < GetEntries ps \<and>
                  \<not> (Status (ps ! nat i) = status \<and> PdgCode (ps ! nat i) = pdg) \<Longrightarrow>
   FindParticle_loop ps pdg status js = Inr None"
  by (induction js) (auto simp: at_slot_valid)

lemma ParticlePosition_loop_none:
  "\<forall>i \<in> set js. 0 \<le> i \<and> i < GetEntries ps \<and>
                  \<not> (Status (ps ! nat i) = status \<and> PdgCode (ps ! nat i) = pdg) \<Longrightarrow>
   ParticlePosition_loop ps pdg status js = Inr (-1)"
  by (induction js) (auto simp: at_slot_valid)

lemma ParticlePosition_of_loop_none:
  "\<forall>i \<in> set js. 0 \<le> i \<and> i < GetEntries ps \<and> \<not> Compare (ps ! nat i) particle \<Longrightarrow>
   ParticlePosition_of_loop Compare ps particle js = Inr (-1)"
  by (induction js) (auto simp: at_slot_valid)


text \<open>
  Claim C9, as amended. \<^verbatim>\<open>GetParticle\<close> with a position that is negative or at least
  \<^verbatim>\<open>GetEntries()\<close> returns null; \<^verbatim>\<open>FindParticle\<close> and the
  \<^verbatim>\<open>ParticlePosition\<close> overloads, called with a start that is not negative and no
  matching entry at or after it, return null and \<open>-1\<close>; \<^verbatim>\<open>GetInteraction\<close> on a
  record with no summary returns null. None of them fails, and as \<^verbatim>\<open>const\<close> member
  functions they return a result only: the record is as it was.
\<close>

theorem lookups_not_found:
  "(position < 0 \<or> GetEntries ps \<le> position \<longrightarrow> GetParticle ps position = None) \<and>
   (0 \<le> start \<and>
    (\<forall>i. start \<le> i \<and> i < GetEntries ps \<longrightarrow>
            \<not> (Status (ps ! nat i) = status \<and> PdgCode (ps ! nat i) = pdg)) \<longrightarrow>
      FindParticle ps pdg status start = Inr None \<and>
      ParticlePosition ps pdg status start = Inr (-1)) \<and>
   (0 \<le> start \<and>
    (\<forall>i. start \<le> i \<and> i < GetEntries ps \<longrightarrow> \<not> Compare (ps ! nat i) particle) \<longrightarrow>
      ParticlePosition_of Compare ps particle start = Inr (-1)) \<and>
   (fInteraction r = None \<longrightarrow> GetInteraction r = None)"
proof (intro conjI impI; (elim conjE)?)
  assume "position < 0 \<or> GetEntries ps \<le> position"
  then show "GetParticle ps position = None"
    by (auto simp: GetParticle_eq)
next
  assume s: "0 \<le> start"
    and n: "\<forall>i. start \<le> i \<and> i < GetEntries ps \<longrightarrow>
                 \<not> (Status (ps ! nat i) = status \<and> PdgCode (ps ! nat i) = pdg)"
  then have all: "\<forall>i \<in> set [start .. GetEntries ps - 1]. 0 \<le> i \<and> i < GetEntries ps \<and>
                  \<not> (Status (ps ! nat i) = status \<and> PdgCode (ps ! nat i) = pdg)"
    by auto
  show "FindParticle ps pdg status start = Inr None"
    unfolding FindParticle_def by (rule FindParticle_loop_none [OF all])
  show "ParticlePosition ps pdg status start = Inr (-1)"
    unfolding ParticlePosition_def by (rule ParticlePosition_loop_none [OF all])
next
  assume s: "0 \<le> start"
    and n: "\<forall>i. start \<le> i \<and> i < GetEntries ps \<longrightarrow> \<not> Compare (ps ! nat i) particle"
  then have all: "\<forall>i \<in> set [start .. GetEntries ps - 1]. 0 \<le> i \<and> i < GetEntries ps \<and>
                  \<not> Compare (ps ! nat i) particle"
    by auto
  show "ParticlePosition_of Compare ps particle start = Inr (-1)"
    unfolding ParticlePosition_of_def
    using all by (rule ParticlePosition_of_loop_none [where Compare = Compare and particle = particle])
next
  assume "fInteraction r = None"
  then show "GetInteraction r = None"
    by (simp add: GetInteraction_def)
qed

theorem lookups_not_found_witness:
  "GetParticle scenario_B_after (-1) = None \<and>
   GetParticle scenario_B_after 4 = None \<and>
   FindParticle scenario_B_after 14 kIStInitialState 1 = Inr None \<and>
   ParticlePosition scenario_B_after 14 kIStInitialState 1 = Inr (-1) \<and>
   ParticlePosition_of (=) scenario_B_after (scenario_B_after ! 0) 1 = Inr (-1) \<and>
   GetInteraction new_GHepRecord = None"
proof -
  have len: "GetEntries scenario_B_after = 4"
    by code_simp
  have nomatch: "list_all (\<lambda>p. \<not> (Status p = kIStInitialState \<and> PdgCode p = 14))
                   (drop 1 scenario_B_after)"
    by code_simp
  have nosame: "list_all (\<lambda>p. p \<noteq> scenario_B_after ! 0) (drop 1 scenario_B_after)"
    by code_simp
  have rng: "P (scenario_B_after ! nat i)"
    if "list_all P (drop 1 scenario_B_after)" "1 \<le> i" "i < GetEntries scenario_B_after"
    for P i
  proof -
    have "scenario_B_after ! nat i = drop 1 scenario_B_after ! (nat i - 1)"
      using that len by (simp add: GetEntries_def)
    moreover have "nat i - 1 < length (drop 1 scenario_B_after)"
      using that len by (simp add: GetEntries_def)
    ultimately show ?thesis
      using that(1) by (simp add: list_all_length del: drop_Suc_Cons)
  qed
  have n1: "\<forall>i. 1 \<le> i \<and> i < GetEntries scenario_B_after \<longrightarrow>
              \<not> (Status (scenario_B_after ! nat i) = kIStInitialState \<and>
                 PdgCode (scenario_B_after ! nat i) = 14)"
    using rng [OF nomatch] by blast
  have n2: "\<forall>i. 1 \<le> i \<and> i < GetEntries scenario_B_after \<longrightarrow>
              \<not> (scenario_B_after ! nat i = scenario_B_after ! 0)"
    using rng [OF nosame] by blast
  have fi: "fInteraction new_GHepRecord = None"
    by code_simp
  note t = lookups_not_found
             [of _ scenario_B_after 1 kIStInitialState 14 "(=)" "scenario_B_after ! 0"
                 new_GHepRecord]
  have g1: "GetParticle scenario_B_after (-1) = None"
    using t [of "-1"] by simp
  have g2: "GetParticle scenario_B_after 4 = None"
    using t [of 4] len by simp
  have f: "FindParticle scenario_B_after 14 kIStInitialState 1 = Inr None \<and>
           ParticlePosition scenario_B_after 14 kIStInitialState 1 = Inr (-1)"
    using t [of 0, THEN conjunct2, THEN conjunct1] n1 by simp
  have q: "ParticlePosition_of (=) scenario_B_after (scenario_B_after ! 0) 1 = Inr (-1)"
    using t [of 0, THEN conjunct2, THEN conjunct2, THEN conjunct1] n2 by simp
  have i: "GetInteraction new_GHepRecord = None"
    using t [of 0, THEN conjunct2, THEN conjunct2, THEN conjunct2] fi by simp
  show ?thesis
    by (intro conjI g1 g2 f [THEN conjunct1] f [THEN conjunct2] q i)
qed

text \<open>
  With a negative start the loop of \<^verbatim>\<open>FindParticle\<close> and \<^verbatim>\<open>ParticlePosition\<close>
  reads slot \<open>-1\<close> and calls a member function through the null pointer it gets,
  although no entry matches.
\<close>

theorem lookups_negative_start_counterexample:
  "FindParticle [] 13 kIStStableFinalState (-1) = Inl NullDeref \<and>
   ParticlePosition [] 13 kIStStableFinalState (-1) = Inl NullDeref \<and>
   FindParticle scenario_B_after 2212 kIStStableFinalState (-1) = Inl NullDeref \<and>
   filter (\<lambda>p. Status p = kIStStableFinalState \<and> PdgCode p = 2212) scenario_B_after = []"
  by code_simp

subsection \<open>Copying a record\<close>

lemma copy_entries_append: "copy_entries src dst = dst @ src"
  by (induction src arbitrary: dst) simp_all

lemma ResetGHepRecord_no_summary:
  "fInteraction this = None \<Longrightarrow>
   ResetGHepRecord h this =
     Inr (h, \<lparr>entries = [], fInteraction = None, fIsPauliBlocked = False,
              fIsBelowThrNRF = False, fGenericErrFlag = False\<rparr>)"
  by (simp add: ResetGHepRecord_def CleanUpGHepRecord_def InitGHepRecord_def)

lemma ResetGHepRecord_live_summary:
  "fInteraction this = Some b \<Longrightarrow> deref h b = Some w \<Longrightarrow>
   ResetGHepRecord h this =
     Inr (h[b := None], \<lparr>entries = [], fInteraction = None, fIsPauliBlocked = False,
              fIsBelowThrNRF = False, fGenericErrFlag = False\<rparr>)"
  by (simp add: ResetGHepRecord_def CleanUpGHepRecord_def InitGHepRecord_def)

lemma ResetGHepRecord_result:
  "ResetGHepRecord h this = Inr (h1, this1) \<Longrightarrow>
   this1 = \<lparr>entries = [], fInteraction = None, fIsPauliBlocked = False,
              fIsBelowThrNRF = False, fGenericErrFlag = False\<rparr> \<and>
   (h1 = h \<and> fInteraction this = None \<or>
    (\<exists>b. fInteraction this = Some b \<and> h1 = h[b := None]))"
  by (auto simp: ResetGHepRecord_def CleanUpGHepRecord_def InitGHepRecord_def
      split: option.splits)

lemma deref_update_other: "a \<noteq> b \<Longrightarrow> deref (h[b := x]) a = deref h a"
  by (simp add: deref_def)

lemma deref_append_old: "deref h a = Some v \<Longrightarrow> deref (h @ [x]) a = Some v"
  by (auto simp: deref_def nth_append split: if_splits)

lemma deref_append_new: "deref (h @ [x]) (length h) = x"
  by (simp add: deref_def)

lemma deref_Some_less: "deref h a = Some v \<Longrightarrow> a < length h"
  by (auto simp: deref_def split: if_splits)

lemma Copy_succeeds:
  assumes rec: "fInteraction record = Some a"
    and reset: "ResetGHepRecord h this = Inr (h1, this1)"
    and live: "deref h1 a = Some v"
  shows "Copy h this record =
           Inr (h1 @ [Some v],
                \<lparr>entries = entries record, fInteraction = Some (length h1),
                 fIsPauliBlocked = fIsPauliBlocked record,
                 fIsBelowThrNRF = fIsBelowThrNRF record,
                 fGenericErrFlag = fGenericErrFlag record\<rparr>)"
  using ResetGHepRecord_result [OF reset]
  by (simp add: Copy_def reset rec live copy_entries_append)

text \<open>
  Claim C7, as amended. For every source record with a summary attached that is alive
  and is not the destination's own, and a destination whose own summary (if any) is
  alive, \<^verbatim>\<open>Copy\<close> returns, and afterwards the destination's entries are equal to the
  source's entry by entry (type code, role tag, mother and daughter ranges, momentum and
  position), the three flags are equal, and the destination's summary is a new object
  at another address than the source's, of equal content, the source's own still alive.
\<close>

theorem Copy_roundtrip:
  assumes "fInteraction record = Some a"
    and "deref h a = Some v"
    and "fInteraction this \<noteq> Some a"
    and "fInteraction this = None \<or> (\<exists>b w. fInteraction this = Some b \<and> deref h b = Some w)"
  shows "\<exists>h' this' a'.
           Copy h this record = Inr (h', this') \<and>
           entries this' = entries record \<and>
           fIsPauliBlocked this' = fIsPauliBlocked record \<and>
           fIsBelowThrNRF this' = fIsBelowThrNRF record \<and>
           fGenericErrFlag this' = fGenericErrFlag record \<and>
           fInteraction this' = Some a' \<and> a' \<noteq> a \<and>
           deref h' a' = Some v \<and> deref h' a = Some v"
proof -
  from assms(4) obtain h1 this1 where
    reset: "ResetGHepRecord h this = Inr (h1, this1)" and
    live: "deref h1 a = Some v" and len: "length h1 = length h"
  proof
    assume n: "fInteraction this = None"
    show ?thesis
      by (rule that [OF ResetGHepRecord_no_summary [OF n]]) (simp_all add: assms(2))
  next
    assume "\<exists>b w. fInteraction this = Some b \<and> deref h b = Some w"
    then obtain b w where b: "fInteraction this = Some b" "deref h b = Some w"
      by blast
    with assms(3) have "a \<noteq> b" by auto
    then show ?thesis
      using that [OF ResetGHepRecord_live_summary [OF b]]
      by (simp add: deref_update_other assms(2))
  qed
  have ne: "length h1 \<noteq> a"
    using deref_Some_less [OF live] by simp
  show ?thesis
    unfolding Copy_succeeds [OF assms(1) reset live]
    using ne by (simp add: deref_append_new deref_append_old [OF live])
qed

theorem Copy_roundtrip_witness:
  "Copy heap_example new_GHepRecord source_example =
     Inr (heap_example @ [Some ''nu_mu CC QES''], AttachInteraction source_example (Some 1)) \<and>
   fInteraction source_example = Some 0 \<and>
   deref heap_example 0 = Some ''nu_mu CC QES''"
proof -
  have 1: "fInteraction source_example = Some 0"
    by code_simp
  have 2: "deref heap_example 0 = Some ''nu_mu CC QES''"
    by code_simp
  have 3: "fInteraction new_GHepRecord \<noteq> Some 0"
    by code_simp
  have 4: "fInteraction new_GHepRecord = None \<or>
           (\<exists>b w. fInteraction new_GHepRecord = Some b \<and> deref heap_example b = Some w)"
    by (rule disjI1) code_simp
  from Copy_roundtrip [OF 1 2 3 4] obtain h' this' a' where
    c: "Copy heap_example new_GHepRecord source_example = Inr (h', this')" and
    e: "entries this' = entries source_example"
       "fIsPauliBlocked this' = fIsPauliBlocked source_example"
       "fIsBelowThrNRF this' = fIsBelowThrNRF source_example"
       "fGenericErrFlag this' = fGenericErrFlag source_example"
       "fInteraction this' = Some a'"
    by blast
  have v: "Copy heap_example new_GHepRecord source_example =
     Inr (heap_example @ [Some ''nu_mu CC QES''], AttachInteraction source_example (Some 1))"
    by code_simp
  show ?thesis
    using c v 1 2 by simp
qed

text \<open>
  A source record with no summary attached: the clone step dereferences the null
  pointer. And a destination that holds the very pointer of the source: the reset
  deletes the object the clone step then reads.
\<close>

theorem Copy_without_summary_counterexample:
  "GetInteraction source_without_summary = None \<and>
   entries source_without_summary = scenario_B_after \<and>
   Copy heap_example new_GHepRecord source_without_summary = Inl NullDeref \<and>
   GetInteraction (AttachInteraction new_GHepRecord (Some 0)) = GetInteraction source_example \<and>
   Copy heap_example (AttachInteraction new_GHepRecord (Some 0)) source_example =
     Inl DanglingPointer"
  by code_simp

text \<open>
  Claim C10. \<^verbatim>\<open>Copy\<close> dereferences the source's \<^verbatim>\<open>fInteraction\<close> without a
  check: for a source with no summary attached it never returns normally (with a
  destination that has no summary either, the failure is the null dereference of the
  clone step), so a call that returns had a source with a summary attached; with a
  summary attached and alive and a fresh destination it does return. A record without a
  summary is otherwise a valid state: the default constructor yields one, and
  \<^verbatim>\<open>GetInteraction\<close> answers null on it.
\<close>

theorem Copy_requires_source_summary:
  "(fInteraction record = None \<longrightarrow> (\<exists>e. Copy h this record = Inl e)) \<and>
   (fInteraction record = None \<and> fInteraction this = None \<longrightarrow>
      Copy h this record = Inl NullDeref) \<and>
   (Copy h this record = Inr res \<longrightarrow> fInteraction record \<noteq> None) \<and>
   (fInteraction record = Some a \<and> deref h a = Some v \<and> fInteraction this = None \<longrightarrow>
      (\<exists>res'. Copy h this record = Inr res')) \<and>
   fInteraction new_GHepRecord = None \<and>
   GetInteraction new_GHepRecord = None"
proof (intro conjI impI; (elim conjE)?)
  assume "fInteraction record = None"
  then show "\<exists>e. Copy h this record = Inl e"
    by (auto simp: Copy_def Let_def split: sum.splits)
next
  assume "fInteraction record = None" "fInteraction this = None"
  then show "Copy h this record = Inl NullDeref"
    by (simp add: Copy_def ResetGHepRecord_no_summary)
next
  assume "Copy h this record = Inr res"
  then show "fInteraction record \<noteq> None"
    by (auto simp: Copy_def Let_def split: sum.splits option.splits)
next
  assume "fInteraction record = Some a" "deref h a = Some v" "fInteraction this = None"
  then show "\<exists>res'. Copy h this record = Inr res'"
    using Copy_succeeds [OF _ ResetGHepRecord_no_summary, of "record" a "this" h v] by simp
next
  show "fInteraction new_GHepRecord = None"
    by (simp add: new_GHepRecord_def InitGHepRecord_def)
  then show "GetInteraction new_GHepRecord = None"
    by (simp add: GetInteraction_def)
qed

theorem Copy_requires_source_summary_witness:
  "Copy heap_example new_GHepRecord new_GHepRecord = Inl NullDeref \<and>
   Copy heap_example source_example new_GHepRecord = Inl NullDeref \<and>
   (\<exists>res. Copy heap_example new_GHepRecord source_example = Inr res)"
proof -
  have n: "fInteraction new_GHepRecord = None"
    by code_simp
  have s: "fInteraction source_example = Some 0 \<and> deref heap_example 0 = Some ''nu_mu CC QES''"
    by code_simp
  have 1: "Copy heap_example new_GHepRecord new_GHepRecord = Inl NullDeref"
    using Copy_requires_source_summary [of new_GHepRecord heap_example new_GHepRecord] n
    by simp
  have 2: "Copy heap_example source_example new_GHepRecord = Inl NullDeref"
    by code_simp
  have 3: "\<exists>res. Copy heap_example new_GHepRecord source_example = Inr res"
    using Copy_requires_source_summary
            [of source_example heap_example new_GHepRecord _ 0 "''nu_mu CC QES''"] n s
    by simp
  show ?thesis
    by (intro conjI 1 2 3)
qed

end
